theory Spec2Isabelle
  imports Complex_Main "HOL-Library.AList"
begin

section \<open>PullPal: the pull-request tracker\<close>

text \<open>
  A shallow embedding of \<^verbatim>\<open>src/pr-tracker.ts\<close>, the event handlers of
  \<^verbatim>\<open>src/github-webhook.ts\<close> and the average latencies of the metrics module
  (\<^verbatim>\<open>formatTimeDifference\<close> and \<^verbatim>\<open>getPRMetrics\<close>, listed with \<^verbatim>\<open>src/index.ts\<close>).

  Conventions. A JavaScript \<^verbatim>\<open>Date\<close> is its \<^verbatim>\<open>getTime()\<close> value, an \<open>int\<close> of
  milliseconds; \<^verbatim>\<open>Date.now()\<close> is a parameter \<open>now\<close>. A \<^verbatim>\<open>number\<close> that the code
  only ever fills with integers (PR numbers, counts, whole hours) is an \<open>int\<close>. An
  optional field is an \<open>option\<close>, \<open>None\<close> for \<^verbatim>\<open>undefined\<close>. The module-level
  \<^verbatim>\<open>Map<number, TrackedPR>\<close> is passed in and returned; it is an association
  list in insertion order, which is the order a JavaScript \<^verbatim>\<open>Map\<close> enumerates.
  A rejected promise is an \<open>error\<close> value returned beside the store, so that what
  was written before the throw stays visible. Of the console output only the line of
  \<^verbatim>\<open>updatePRStatus\<close> is kept; the Slack notifications are outside the model.
\<close>

subsection \<open>Data\<close>

record PRData =
  number :: int
  title :: string
  url :: string
  author :: string
  createdAt :: int
  owner :: string
  repo :: string
  isDraft :: bool
  lastReviewedAt :: "int option"
  lastUpdated :: "int option"
  reviewCount :: "int option"

record TrackedPR = PRData +
  reviewers :: "string list"
  age :: int

type_synonym store = "(int \<times> TrackedPR) list"

text \<open>
  \<^verbatim>\<open>Partial<TrackedPR>\<close>: every field may be left out (\<open>None\<close>). The two optional
  timestamps can also be supplied as \<^verbatim>\<open>undefined\<close> (\<open>Some None\<close>), which the object
  spread writes into the record. A supplied \<^verbatim>\<open>undefined\<close> for a required field would
  leave a record that is no \<^verbatim>\<open>TrackedPR\<close>; such updates are not represented. For
  \<open>reviewCount\<close> the code treats a supplied \<^verbatim>\<open>undefined\<close> as a field left out.
\<close>

record updates =
  u_number :: "int option"
  u_title :: "string option"
  u_url :: "string option"
  u_author :: "string option"
  u_createdAt :: "int option"
  u_owner :: "string option"
  u_repo :: "string option"
  u_isDraft :: "bool option"
  u_lastReviewedAt :: "int option option"
  u_lastUpdated :: "int option option"
  u_reviewCount :: "int option"
  u_reviewers :: "string list option"
  u_age :: "int option"

definition no_updates :: updates where
  "no_updates = \<lparr>u_number = None, u_title = None, u_url = None, u_author = None,
     u_createdAt = None, u_owner = None, u_repo = None, u_isDraft = None,
     u_lastReviewedAt = None, u_lastUpdated = None, u_reviewCount = None,
     u_reviewers = None, u_age = None\<rparr>"

datatype console = Console_log string | Console_warn string

subsection \<open>Rendering a number in a template string\<close>

definition digit :: "nat \<Rightarrow> char" where
  "digit d = ''0123456789'' ! d"

fun string_of_nat :: "nat \<Rightarrow> string" where
  "string_of_nat n =
     (if n < 10 then [digit n] else string_of_nat (n div 10) @ [digit (n mod 10)])"

declare string_of_nat.simps [simp del]

definition show_int :: "int \<Rightarrow> string" where
  "show_int i = (if i < 0 then CHR ''-'' # string_of_nat (nat (- i)) else string_of_nat (nat i))"

subsection \<open>The tracker\<close>

text \<open>\<^verbatim>\<open>x || 0\<close> on an optional count: \<^verbatim>\<open>undefined\<close> and \<open>0\<close> are falsy.\<close>

definition or_zero :: "int option \<Rightarrow> int" where
  "or_zero x = (case x of None \<Rightarrow> 0 | Some c \<Rightarrow> if c = 0 then 0 else c)"

text \<open>The object spread \<^verbatim>\<open>{...pr, ...updates}\<close> on one field.\<close>

definition spread :: "'a option \<Rightarrow> 'a \<Rightarrow> 'a" where
  "spread u old = (case u of None \<Rightarrow> old | Some v \<Rightarrow> v)"

definition trackPR :: "int \<Rightarrow> PRData \<Rightarrow> store \<Rightarrow> store" where
  "trackPR now prData trackedPRs =
     (let age = (now - createdAt prData) div (1000 * 60 * 60);
          existing = map_of trackedPRs (number prData)
      in AList.update (number prData)
           \<lparr>number = number prData, title = title prData, url = url prData,
            author = author prData, createdAt = createdAt prData, owner = owner prData,
            repo = repo prData, isDraft = isDraft prData,
            lastReviewedAt = lastReviewedAt prData, lastUpdated = lastUpdated prData,
            reviewCount = Some (or_zero (Option.bind existing reviewCount)),
            reviewers = (case existing of None \<Rightarrow> [] | Some e \<Rightarrow> reviewers e),
            age = age\<rparr>
           trackedPRs)"

definition updatePRStatus :: "int \<Rightarrow> updates \<Rightarrow> store \<Rightarrow> console \<times> store" where
  "updatePRStatus prNumber upd trackedPRs =
     (case map_of trackedPRs prNumber of
        None \<Rightarrow>
          (Console_warn (''PR #'' @ show_int prNumber @ '' not found in tracker''), trackedPRs)
      | Some pr \<Rightarrow>
          (Console_log (''Updated PR #'' @ show_int prNumber @ '' status''),
           AList.update prNumber
             \<lparr>number = spread (u_number upd) (number pr),
              title = spread (u_title upd) (title pr),
              url = spread (u_url upd) (url pr),
              author = spread (u_author upd) (author pr),
              createdAt = spread (u_createdAt upd) (createdAt pr),
              owner = spread (u_owner upd) (owner pr),
              repo = spread (u_repo upd) (repo pr),
              isDraft = spread (u_isDraft upd) (isDraft pr),
              lastReviewedAt = spread (u_lastReviewedAt upd) (lastReviewedAt pr),
              lastUpdated = spread (u_lastUpdated upd) (lastUpdated pr),
              reviewCount =
                (case u_reviewCount upd of
                   Some d \<Rightarrow> Some (or_zero (reviewCount pr) + d)
                 | None \<Rightarrow> reviewCount pr),
              reviewers = spread (u_reviewers upd) (reviewers pr),
              age = spread (u_age upd) (age pr)\<rparr>
             trackedPRs))"

definition removePR :: "int \<Rightarrow> store \<Rightarrow> store" where
  "removePR prNumber trackedPRs = AList.delete prNumber trackedPRs"

definition getTrackedPRs :: "store \<Rightarrow> TrackedPR list" where
  "getTrackedPRs trackedPRs = map snd trackedPRs"

definition getStalePRs :: "int \<Rightarrow> int \<Rightarrow> store \<Rightarrow> TrackedPR list" where
  "getStalePRs now hoursThreshold trackedPRs =
     (let threshold = hoursThreshold * 60 * 60 * 1000
      in filter
           (\<lambda>pr. let age = now - createdAt pr;
                     hasNoRecentReview =
                       (case lastReviewedAt pr of
                          None \<Rightarrow> True
                        | Some t \<Rightarrow> now - t > threshold)
                 in age > threshold \<and> hasNoRecentReview)
           (map snd trackedPRs))"

definition getPRsNeedingReview :: "store \<Rightarrow> TrackedPR list" where
  "getPRsNeedingReview trackedPRs =
     filter (\<lambda>pr. (case lastReviewedAt pr of None \<Rightarrow> True | Some t \<Rightarrow> False)
                   \<or> reviewCount pr = Some 0)
       (map snd trackedPRs)"

definition formatPRAge :: "TrackedPR \<Rightarrow> string" where
  "formatPRAge pr =
     (let hours = age pr
      in if hours < 1 then ''just opened''
         else if hours < 24 then show_int hours @ ''h old''
         else let days = hours div 24 in show_int days @ ''d old'')"

subsection \<open>The source of truth\<close>

text \<open>
  What the GitHub client answers. A request either fails (the rejected promise, \<open>Inl\<close>)
  or returns its \<^verbatim>\<open>data\<close>. Timestamps arrive as ISO strings and are turned into dates
  by \<^verbatim>\<open>new Date(...)\<close>; the model starts after that parse. \<^verbatim>\<open>user\<close> may be null.
\<close>

datatype error = Invalid_webhook_signature | Request_failed string

record GhPull =
  gh_number :: int
  gh_title :: string
  gh_html_url :: string
  gh_user :: "string option"
  gh_created_at :: int
  gh_updated_at :: int
  gh_draft :: bool
  gh_merged_at :: "int option"

record GhReview =
  rv_user :: "string option"
  rv_submitted_at :: int
  rv_state :: string

record octokit =
  pulls_list_open :: "error + GhPull list"
  pulls_list_closed :: "error + GhPull list"
  pulls_listReviews :: "int \<Rightarrow> error + GhReview list"

text \<open>\<^verbatim>\<open>user?.login || 'unknown'\<close>: a missing user and an empty login are falsy.\<close>

definition login_or_unknown :: "string option \<Rightarrow> string" where
  "login_or_unknown u = (case u of None \<Rightarrow> ''unknown'' | Some l \<Rightarrow> if l = [] then ''unknown'' else l)"

text \<open>\<^verbatim>\<open>[...new Set(xs)]\<close>: a \<^verbatim>\<open>Set\<close> keeps the first insertion of each value.\<close>

definition set_add :: "'a list \<Rightarrow> 'a \<Rightarrow> 'a list" where
  "set_add acc x = (if x \<in> set acc then acc else acc @ [x])"

definition new_Set :: "'a list \<Rightarrow> 'a list" where
  "new_Set xs = foldl set_add [] xs"

subsection \<open>Reconciliation\<close>

text \<open>The first loop of \<^verbatim>\<open>syncWithGitHub\<close>: drop every tracked key that is not open.\<close>

definition remove_closed :: "int set \<Rightarrow> store \<Rightarrow> store" where
  "remove_closed openPRNumbers trackedPRs =
     fold (\<lambda>prNumber acc. if prNumber \<notin> openPRNumbers then AList.delete prNumber acc else acc)
       (map fst trackedPRs) trackedPRs"

text \<open>
  The body of the second loop once the reviews of \<open>pr\<close> have arrived: build
  \<^verbatim>\<open>prData\<close>, call \<^verbatim>\<open>trackPR\<close>, then assign \<^verbatim>\<open>pr_tracked.reviewers\<close>.
\<close>

definition sync_one :: "int \<Rightarrow> string \<Rightarrow> string \<Rightarrow> GhPull \<Rightarrow> GhReview list \<Rightarrow> store \<Rightarrow> store" where
  "sync_one now ownr rep pr reviews trackedPRs =
     (let lastReview = (if length reviews > 0 then Some (reviews ! (length reviews - 1)) else None);
          prData = \<lparr>number = gh_number pr, title = gh_title pr, url = gh_html_url pr,
            author = login_or_unknown (gh_user pr), createdAt = gh_created_at pr,
            owner = ownr, repo = rep, isDraft = gh_draft pr,
            lastReviewedAt = map_option rv_submitted_at lastReview,
            lastUpdated = Some (gh_updated_at pr),
            reviewCount = Some (int (length reviews))\<rparr>;
          tracked = trackPR now prData trackedPRs;
          revs = map (\<lambda>r. login_or_unknown (rv_user r)) reviews
      in case map_of tracked (gh_number pr) of
           None \<Rightarrow> tracked
         | Some pr_tracked \<Rightarrow>
             AList.update (gh_number pr) (pr_tracked\<lparr>reviewers := new_Set revs\<rparr>) tracked)"

text \<open>
  The second loop. \<open>clock i\<close> is what \<^verbatim>\<open>Date.now()\<close> returns in iteration \<open>i\<close>.
  A failed \<^verbatim>\<open>listReviews\<close> leaves the loop through the surrounding \<^verbatim>\<open>catch\<close>,
  which rethrows: the result carries the error and the store as it is at that moment.
\<close>

fun sync_loop ::
  "(nat \<Rightarrow> int) \<Rightarrow> string \<Rightarrow> string \<Rightarrow> (int \<Rightarrow> error + GhReview list) \<Rightarrow> GhPull list \<Rightarrow> store
     \<Rightarrow> error option \<times> store" where
  "sync_loop clock ownr rep listReviews [] trackedPRs = (None, trackedPRs)"
| "sync_loop clock ownr rep listReviews (pr # rest) trackedPRs =
     (if gh_draft pr then sync_loop (\<lambda>i. clock (Suc i)) ownr rep listReviews rest trackedPRs
      else case listReviews (gh_number pr) of
             Inl e \<Rightarrow> (Some e, trackedPRs)
           | Inr reviews \<Rightarrow>
               sync_loop (\<lambda>i. clock (Suc i)) ownr rep listReviews rest
                 (sync_one (clock 0) ownr rep pr reviews trackedPRs))"

definition syncWithGitHub ::
  "(nat \<Rightarrow> int) \<Rightarrow> string \<Rightarrow> string \<Rightarrow> octokit \<Rightarrow> store \<Rightarrow> error option \<times> store" where
  "syncWithGitHub clock ownr rep octo trackedPRs =
     (case pulls_list_open octo of
        Inl e \<Rightarrow> (Some e, trackedPRs)
      | Inr pullRequests \<Rightarrow>
          sync_loop clock ownr rep (pulls_listReviews octo) pullRequests
            (remove_closed (set (map gh_number pullRequests)) trackedPRs))"

subsection \<open>Webhook events\<close>

record WebhookPullRequest =
  pr_number :: int
  pr_title :: string
  pr_html_url :: string
  pr_user_login :: string
  pr_created_at :: int
  pr_state :: string
  pr_draft :: bool

record WebhookReview =
  review_state :: string
  review_user_login :: string
  review_submitted_at :: int

record WebhookPayload =
  action :: "string option"
  pull_request :: "WebhookPullRequest option"
  review :: "WebhookReview option"
  repository_name :: string
  repository_owner_login :: string

text \<open>
  The handlers' effect on the store. The Slack notifications they send afterwards catch
  their own failures and touch no tracker state; they are left out.
\<close>

definition webhook_prData :: "WebhookPullRequest \<Rightarrow> WebhookPayload \<Rightarrow> PRData" where
  "webhook_prData p payload =
     \<lparr>number = pr_number p, title = pr_title p, url = pr_html_url p,
      author = pr_user_login p, createdAt = pr_created_at p,
      owner = repository_owner_login payload, repo = repository_name payload,
      isDraft = pr_draft p, lastReviewedAt = None, lastUpdated = None, reviewCount = None\<rparr>"

definition handlePullRequestEvent :: "int \<Rightarrow> WebhookPayload \<Rightarrow> store \<Rightarrow> store" where
  "handlePullRequestEvent now payload trackedPRs =
     (case pull_request payload of
        None \<Rightarrow> trackedPRs
      | Some p \<Rightarrow>
          let prData = webhook_prData p payload in
          if action payload = Some ''opened'' then
            (if \<not> pr_draft p then trackPR now prData trackedPRs else trackedPRs)
          else if action payload = Some ''ready_for_review'' then trackPR now prData trackedPRs
          else if action payload = Some ''closed'' then
            (if pr_state p = ''closed'' then removePR (pr_number p) trackedPRs else trackedPRs)
          else if action payload = Some ''reopened'' then trackPR now prData trackedPRs
          else if action payload = Some ''synchronize'' then
            snd (updatePRStatus (pr_number p) (no_updates\<lparr>u_lastUpdated := Some (Some now)\<rparr>)
                   trackedPRs)
          else trackedPRs)"

definition handlePullRequestReviewEvent :: "WebhookPayload \<Rightarrow> store \<Rightarrow> store" where
  "handlePullRequestReviewEvent payload trackedPRs =
     (case (pull_request payload, review payload) of
        (Some p, Some r) \<Rightarrow>
          if action payload = Some ''submitted'' then
            snd (updatePRStatus (pr_number p)
                   (no_updates\<lparr>u_lastReviewedAt := Some (Some (review_submitted_at r)),
                                u_reviewCount := Some 1\<rparr>)
                   trackedPRs)
          else trackedPRs
      | _ \<Rightarrow> trackedPRs)"

definition handlePullRequestReviewCommentEvent :: "int \<Rightarrow> WebhookPayload \<Rightarrow> store \<Rightarrow> store" where
  "handlePullRequestReviewCommentEvent now payload trackedPRs =
     (case pull_request payload of
        None \<Rightarrow> trackedPRs
      | Some p \<Rightarrow>
          if action payload = Some ''created'' then
            snd (updatePRStatus (pr_number p) (no_updates\<lparr>u_lastUpdated := Some (Some now)\<rparr>)
                   trackedPRs)
          else trackedPRs)"

text \<open>
  \<open>isValid\<close> is the result of \<^verbatim>\<open>verifySignature\<close>, whose HMAC is outside the model.
\<close>

definition handleWebhook ::
  "bool \<Rightarrow> string \<Rightarrow> int \<Rightarrow> WebhookPayload \<Rightarrow> store \<Rightarrow> error option \<times> store" where
  "handleWebhook isValid event now payload trackedPRs =
     (if \<not> isValid then (Some Invalid_webhook_signature, trackedPRs)
      else if event = ''pull_request'' then
        (None, handlePullRequestEvent now payload trackedPRs)
      else if event = ''pull_request_review'' then
        (None, handlePullRequestReviewEvent payload trackedPRs)
      else if event = ''pull_request_review_comment'' then
        (None, handlePullRequestReviewCommentEvent now payload trackedPRs)
      else (None, trackedPRs))"

subsection \<open>Metrics: average latencies\<close>

text \<open>
  \<^verbatim>\<open>formatTimeDifference\<close> receives a mean, \<^verbatim>\<open>total / count\<close> of whole milliseconds;
  the model keeps it as an exact rational where JavaScript rounds to a double.
\<close>

definition formatTimeDifference :: "rat \<Rightarrow> string" where
  "formatTimeDifference milliseconds =
     (let hours = milliseconds / (1000 * 60 * 60)
      in if hours < 1 then
           (let minutes = \<lfloor>milliseconds / (1000 * 60)\<rfloor> in show_int minutes @ ''m'')
         else if hours < 24 then show_int \<lfloor>hours\<rfloor> @ ''h''
         else let days = \<lfloor>hours / 24\<rfloor>
              in if days = 1 then ''1 day'' else show_int days @ '' days'')"

definition mergedPRs :: "GhPull list \<Rightarrow> GhPull list" where
  "mergedPRs closedPRs = filter (\<lambda>pr. gh_merged_at pr \<noteq> None) closedPRs"

text \<open>One iteration of the time-to-first-review loop; a failed request is skipped.\<close>

definition review_time_step ::
  "(int \<Rightarrow> error + GhReview list) \<Rightarrow> GhPull \<Rightarrow> int \<times> nat \<Rightarrow> int \<times> nat" where
  "review_time_step listReviews pr acc =
     (case listReviews (gh_number pr) of
        Inl e \<Rightarrow> acc
      | Inr reviews \<Rightarrow>
          if length reviews > 0 then
            (let firstReview = reviews ! 0;
                 timeToReview = rv_submitted_at firstReview - gh_created_at pr
             in (fst acc + timeToReview, Suc (snd acc)))
          else acc)"

definition merge_time_step :: "GhPull \<Rightarrow> int \<times> nat \<Rightarrow> int \<times> nat" where
  "merge_time_step pr acc =
     (case gh_merged_at pr of
        Some m \<Rightarrow> (fst acc + (m - gh_created_at pr), Suc (snd acc))
      | None \<Rightarrow> acc)"

definition average_string :: "int \<times> nat \<Rightarrow> string" where
  "average_string acc =
     (if snd acc > 0 then formatTimeDifference (of_int (fst acc) / of_nat (snd acc)) else ''N/A'')"

text \<open>The two strings of \<^verbatim>\<open>getPRMetrics\<close>: \<^verbatim>\<open>averageReviewTime\<close> and \<^verbatim>\<open>averageMergeTime\<close>.\<close>

definition averageReviewTime :: "octokit \<Rightarrow> error + string" where
  "averageReviewTime octo =
     (case pulls_list_closed octo of
        Inl e \<Rightarrow> Inl e
      | Inr closedPRs \<Rightarrow>
          Inr (average_string
                 (fold (review_time_step (pulls_listReviews octo))
                    (take 30 (mergedPRs closedPRs)) (0, 0))))"

definition averageMergeTime :: "octokit \<Rightarrow> error + string" where
  "averageMergeTime octo =
     (case pulls_list_closed octo of
        Inl e \<Rightarrow> Inl e
      | Inr closedPRs \<Rightarrow>
          Inr (average_string (fold merge_time_step (take 30 (mergedPRs closedPRs)) (0, 0))))"

subsection \<open>Call sequences and scenarios\<close>

text \<open>A sequence of \<^verbatim>\<open>updatePRStatus\<close> calls, each a PR number with its partial update.\<close>

definition run_updates :: "(int \<times> updates) list \<Rightarrow> store \<Rightarrow> store" where
  "run_updates calls S = fold (\<lambda>c acc. snd (updatePRStatus (fst c) (snd c) acc)) calls S"

definition nonneg_delta :: "updates \<Rightarrow> bool" where
  "nonneg_delta u = (case u_reviewCount u of None \<Rightarrow> True | Some d \<Rightarrow> 0 \<le> d)"

definition delta :: "int \<Rightarrow> updates" where
  "delta d = no_updates\<lparr>u_reviewCount := Some d\<rparr>"

text \<open>The update a submitted review sends: \<^verbatim>\<open>{lastReviewedAt: t, reviewCount: 1}\<close>.\<close>

definition one_review :: "int \<Rightarrow> updates" where
  "one_review t = no_updates\<lparr>u_lastReviewedAt := Some (Some t), u_reviewCount := Some 1\<rparr>"

definition hour :: int where
  "hour = 1000 * 60 * 60"

text \<open>
  A pull request created at time \<open>0\<close>, first tracked when the clock reads 30 hours, then
  reviewed once at 29 hours.
\<close>

definition example_pr :: PRData where
  "example_pr = \<lparr>number = 7, title = ''Fix parser'', url = ''https://example.test/pull/7'',
     author = ''alice'', createdAt = 0, owner = ''acme'', repo = ''widgets'', isDraft = False,
     lastReviewedAt = None, lastUpdated = None, reviewCount = None\<rparr>"

definition example_opened :: store where
  "example_opened = trackPR (30 * hour) example_pr []"

definition example_reviewed :: store where
  "example_reviewed = snd (updatePRStatus 7 (one_review (29 * hour)) example_opened)"

text \<open>A webhook delivery: the review bob submitted on PR 7 at 29 hours.\<close>

definition review_payload :: WebhookPayload where
  "review_payload =
     \<lparr>action = Some ''submitted'',
      pull_request = Some \<lparr>pr_number = 7, pr_title = ''Fix parser'',
        pr_html_url = ''https://example.test/pull/7'', pr_user_login = ''alice'',
        pr_created_at = 0, pr_state = ''open'', pr_draft = False\<rparr>,
      review = Some \<lparr>review_state = ''approved'', review_user_login = ''bob'',
        review_submitted_at = 29 * hour\<rparr>,
      repository_name = ''widgets'', repository_owner_login = ''acme''\<rparr>"

text \<open>A webhook delivery: a draft PR 8 has been opened.\<close>

definition draft_opened_payload :: WebhookPayload where
  "draft_opened_payload =
     \<lparr>action = Some ''opened'',
      pull_request = Some \<lparr>pr_number = 8, pr_title = ''Draft work'',
        pr_html_url = ''https://example.test/pull/8'', pr_user_login = ''alice'',
        pr_created_at = 0, pr_state = ''open'', pr_draft = True\<rparr>,
      review = None,
      repository_name = ''widgets'', repository_owner_login = ''acme''\<rparr>"

text \<open>Answers of the source of truth used in the scenarios.\<close>

definition open_pull :: "int \<Rightarrow> bool \<Rightarrow> GhPull" where
  "open_pull n d =
     \<lparr>gh_number = n, gh_title = ''Add cache'', gh_html_url = ''https://example.test/pull'',
      gh_user = Some ''alice'', gh_created_at = 0, gh_updated_at = hour,
      gh_draft = d, gh_merged_at = None\<rparr>"

definition merged_pull :: "int \<Rightarrow> int \<Rightarrow> int \<Rightarrow> GhPull" where
  "merged_pull n created merged =
     \<lparr>gh_number = n, gh_title = ''Add cache'', gh_html_url = ''https://example.test/pull'',
      gh_user = Some ''alice'', gh_created_at = created, gh_updated_at = merged,
      gh_draft = False, gh_merged_at = Some merged\<rparr>"

definition review_by :: "string \<Rightarrow> int \<Rightarrow> GhReview" where
  "review_by who t = \<lparr>rv_user = Some who, rv_submitted_at = t, rv_state = ''APPROVED''\<rparr>"

definition three_reviews :: "GhReview list" where
  "three_reviews = [review_by ''bob'' 10, review_by ''carol'' 20, review_by ''bob'' 30]"

text \<open>Five open PRs; the review list of #3 cannot be fetched.\<close>

definition failing_octokit :: octokit where
  "failing_octokit =
     \<lparr>pulls_list_open =
        Inr [open_pull 1 False, open_pull 2 False, open_pull 3 False, open_pull 4 False,
             open_pull 5 False],
      pulls_list_closed = Inr [],
      pulls_listReviews =
        (\<lambda>n. if n = 3 then Inl (Request_failed ''502'') else Inr three_reviews)\<rparr>"

text \<open>One open PR with three reviews, and an open draft.\<close>

definition healthy_octokit :: octokit where
  "healthy_octokit =
     \<lparr>pulls_list_open = Inr [open_pull 1 False, open_pull 2 True],
      pulls_list_closed = Inr [],
      pulls_listReviews = (\<lambda>n. Inr three_reviews)\<rparr>"

text \<open>The list of open PRs itself cannot be fetched.\<close>

definition down_octokit :: octokit where
  "down_octokit =
     \<lparr>pulls_list_open = Inl (Request_failed ''503''),
      pulls_list_closed = Inl (Request_failed ''503''),
      pulls_listReviews = (\<lambda>n. Inl (Request_failed ''503''))\<rparr>"

text \<open>
  The entry a sync at two hours writes for \<open>open_pull n False\<close> with \<open>three_reviews\<close>,
  up to its \<open>reviewCount\<close>.
\<close>

definition synced_pr :: "int \<Rightarrow> int \<Rightarrow> TrackedPR" where
  "synced_pr n c =
     \<lparr>number = n, title = ''Add cache'', url = ''https://example.test/pull'',
      author = ''alice'', createdAt = 0, owner = ''acme'', repo = ''widgets'',
      isDraft = False, lastReviewedAt = Some 30, lastUpdated = Some hour,
      reviewCount = Some c, reviewers = [''bob'', ''carol''], age = 2\<rparr>"

text \<open>
  Three merged PRs whose first reviews came 1, 3 and 5 hours after creation and which
  were merged after 48 hours; and one merged PR first reviewed after 30 minutes.
\<close>

definition sample_octokit :: octokit where
  "sample_octokit =
     \<lparr>pulls_list_open = Inr [],
      pulls_list_closed =
        Inr [merged_pull 11 0 (48 * hour), merged_pull 12 hour (49 * hour),
             merged_pull 13 (2 * hour) (50 * hour)],
      pulls_listReviews =
        (\<lambda>n. if n = 11 then Inr [review_by ''bob'' hour]
              else if n = 12 then Inr [review_by ''carol'' (4 * hour), review_by ''bob'' (9 * hour)]
              else if n = 13 then Inr [review_by ''bob'' (7 * hour)]
              else Inl (Request_failed ''404''))\<rparr>"

definition quick_octokit :: octokit where
  "quick_octokit =
     \<lparr>pulls_list_open = Inr [],
      pulls_list_closed = Inr [merged_pull 21 0 (48 * hour)],
      pulls_listReviews = (\<lambda>n. Inr [review_by ''bob'' 1800000])\<rparr>"

subsection \<open>Tracker operations as data\<close>

datatype tracker_op =
    Track int PRData
  | UpdateStatus int updates
  | Remove int
  | Sync "nat \<Rightarrow> int" string string octokit

fun apply_op :: "tracker_op \<Rightarrow> store \<Rightarrow> store" where
  "apply_op (Track now prData) S = trackPR now prData S"
| "apply_op (UpdateStatus prNumber upd) S = snd (updatePRStatus prNumber upd S)"
| "apply_op (Remove prNumber) S = removePR prNumber S"
| "apply_op (Sync clock ownr rep octo) S = snd (syncWithGitHub clock ownr rep octo S)"

definition run_ops :: "tracker_op list \<Rightarrow> store \<Rightarrow> store" where
  "run_ops ops S = fold apply_op ops S"

definition no_drafts :: "store \<Rightarrow> bool" where
  "no_drafts S = list_all (\<lambda>e. \<not> isDraft (snd e)) S"

text \<open>An operation whose argument does not itself carry \<open>isDraft = true\<close>.\<close>

fun passes_no_draft :: "tracker_op \<Rightarrow> bool" where
  "passes_no_draft (Track now prData) = (\<not> isDraft prData)"
| "passes_no_draft (UpdateStatus prNumber upd) = (u_isDraft upd \<noteq> Some True)"
| "passes_no_draft (Remove prNumber) = True"
| "passes_no_draft (Sync clock ownr rep octo) = True"

definition example_ops :: "tracker_op list" where
  "example_ops =
     [Track (30 * hour) example_pr, UpdateStatus 7 (one_review (29 * hour)),
      Sync (\<lambda>i. 2 * hour) ''acme'' ''widgets'' healthy_octokit,
      Track (30 * hour) example_pr, Remove 1]"

subsection \<open>Reconciliation seen from one key\<close>

text \<open>
  What \<open>sync_one\<close> writes at the key of \<open>pr\<close>, given the entry \<open>existing\<close> found there.
\<close>

definition synced_entry ::
  "int \<Rightarrow> string \<Rightarrow> string \<Rightarrow> GhPull \<Rightarrow> GhReview list \<Rightarrow> TrackedPR option \<Rightarrow> TrackedPR" where
  "synced_entry now ownr rep pr reviews existing =
     \<lparr>number = gh_number pr, title = gh_title pr, url = gh_html_url pr,
      author = login_or_unknown (gh_user pr), createdAt = gh_created_at pr,
      owner = ownr, repo = rep, isDraft = gh_draft pr,
      lastReviewedAt = (if reviews = [] then None else Some (rv_submitted_at (last reviews))),
      lastUpdated = Some (gh_updated_at pr),
      reviewCount = Some (or_zero (Option.bind existing reviewCount)),
      reviewers = new_Set (map (\<lambda>r. login_or_unknown (rv_user r)) reviews),
      age = (now - gh_created_at pr) div 3600000\<rparr>"

text \<open>The effect of \<open>sync_loop\<close> on the entry \<open>v\<close> at key \<open>k\<close>.\<close>

fun entry_loop ::
  "(nat \<Rightarrow> int) \<Rightarrow> string \<Rightarrow> string \<Rightarrow> (int \<Rightarrow> error + GhReview list) \<Rightarrow> GhPull list \<Rightarrow> int
     \<Rightarrow> TrackedPR option \<Rightarrow> TrackedPR option" where
  "entry_loop clock ownr rep listReviews [] k v = v"
| "entry_loop clock ownr rep listReviews (pr # rest) k v =
     (if gh_draft pr then entry_loop (\<lambda>i. clock (Suc i)) ownr rep listReviews rest k v
      else case listReviews (gh_number pr) of
             Inl e \<Rightarrow> v
           | Inr reviews \<Rightarrow>
               entry_loop (\<lambda>i. clock (Suc i)) ownr rep listReviews rest k
                 (if gh_number pr = k
                  then Some (synced_entry (clock 0) ownr rep pr reviews v) else v))"

text \<open>The numbers of the PRs that \<open>sync_loop\<close> gets to write, in order.\<close>

fun processed :: "(int \<Rightarrow> error + GhReview list) \<Rightarrow> GhPull list \<Rightarrow> int list" where
  "processed listReviews [] = []"
| "processed listReviews (pr # rest) =
     (if gh_draft pr then processed listReviews rest
      else case listReviews (gh_number pr) of
             Inl e \<Rightarrow> []
           | Inr reviews \<Rightarrow> gh_number pr # processed listReviews rest)"

definition count_of :: "TrackedPR option \<Rightarrow> int" where
  "count_of v = or_zero (Option.bind v reviewCount)"

subsection \<open>Means and the tiering of claim C9\<close>

text \<open>
  The latencies that enter the two means of \<^verbatim>\<open>getPRMetrics\<close>: per sampled PR whose
  reviews could be fetched and are not empty, first review minus creation; per sampled PR,
  merge minus creation.
\<close>

definition review_latencies :: "(int \<Rightarrow> error + GhReview list) \<Rightarrow> GhPull list \<Rightarrow> int list" where
  "review_latencies listReviews prs =
     List.map_filter
       (\<lambda>pr. case listReviews (gh_number pr) of
                Inl e \<Rightarrow> None
              | Inr [] \<Rightarrow> None
              | Inr (r # rs) \<Rightarrow> Some (rv_submitted_at r - gh_created_at pr))
       prs"

definition merge_latencies :: "GhPull list \<Rightarrow> int list" where
  "merge_latencies prs =
     List.map_filter (\<lambda>pr. map_option (\<lambda>m. m - gh_created_at pr) (gh_merged_at pr)) prs"

definition mean_string :: "int list \<Rightarrow> string" where
  "mean_string ls =
     (if ls = [] then ''N/A''
      else formatTimeDifference (of_int (sum_list ls) / of_nat (length ls)))"

text \<open>
  The rule as claim C9 words it, for comparison with \<open>formatTimeDifference\<close>: the tiers of
  \<^verbatim>\<open>formatPRAge\<close> (\<open>just opened\<close> below one hour, \<open>N\<close>h from 1 to 23 hours, \<open>N\<close>d
  with the day floor from 24 hours) applied to a number of milliseconds.
\<close>

definition formatAge_tiering :: "rat \<Rightarrow> string" where
  "formatAge_tiering milliseconds =
     (let hours = milliseconds / (1000 * 60 * 60)
      in if hours < 1 then ''just opened''
         else if hours < 24 then show_int \<lfloor>hours\<rfloor> @ ''h''
         else show_int \<lfloor>hours / 24\<rfloor> @ ''d'')"

section \<open>Properties\<close>

subsection \<open>Evaluation and basic facts\<close>

lemmas example_defs = example_reviewed_def example_opened_def example_pr_def one_review_def
  no_updates_def hour_def

lemmas show_int_eval = show_int_def string_of_nat.simps digit_def

lemmas sync_eval = syncWithGitHub_def remove_closed_def sync_one_def trackPR_def
  new_Set_def set_add_def login_or_unknown_def

lemmas octokit_defs = failing_octokit_def healthy_octokit_def down_octokit_def open_pull_def
  review_by_def three_reviews_def synced_pr_def hour_def

lemmas sample_defs = sample_octokit_def quick_octokit_def merged_pull_def review_by_def hour_def

lemma or_zero_Some [simp]: "or_zero (Some c) = c"
  by (simp add: or_zero_def)

lemma or_zero_None [simp]: "or_zero None = 0"
  by (simp add: or_zero_def)

lemma or_zero_case: "or_zero x = (case x of None \<Rightarrow> 0 | Some c \<Rightarrow> c)"
  by (simp add: or_zero_def split: option.split)

subsection \<open>Queries\<close>

lemma needsReview_filter:
  "getPRsNeedingReview S =
     filter (\<lambda>pr. reviewCount pr = Some 0 \<or> lastReviewedAt pr = None) (getTrackedPRs S)"
  unfolding getPRsNeedingReview_def getTrackedPRs_def
  by (rule filter_cong) (auto split: option.splits)

lemma stale_filter:
  "getStalePRs now h S =
     filter (\<lambda>pr. h * 3600000 < now - createdAt pr \<and>
                   \<not> (\<exists>t. lastReviewedAt pr = Some t \<and> now - t \<le> h * 3600000))
       (getTrackedPRs S)"
  unfolding getStalePRs_def getTrackedPRs_def Let_def
  by (rule filter_cong) (auto split: option.splits)

lemma example_queries:
  "map number (getStalePRs (30 * hour) 24 example_opened) = [7]"
  "map number (getPRsNeedingReview example_opened) = [7]"
  "getStalePRs (30 * hour) 24 example_reviewed = []"
  "getPRsNeedingReview example_reviewed = []"
  "map number (getStalePRs (77 * hour) 24 example_reviewed) = [7]"
  by (simp_all add: example_defs trackPR_def updatePRStatus_def
        getStalePRs_def getPRsNeedingReview_def spread_def)

text \<open>
  Claim C6. \<^verbatim>\<open>getPRsNeedingReview\<close> returns exactly the tracked PRs, in store order,
  whose \<open>reviewCount\<close> is \<open>0\<close> or whose \<open>lastReviewedAt\<close> is absent.
  \<^verbatim>\<open>getStalePRs\<close> with a threshold of \<open>h\<close> hours returns exactly the tracked PRs
  created more than \<open>h\<close> hours before \<open>now\<close> that have no review at or after \<open>h\<close> hours
  before \<open>now\<close>. In particular the PR created 30 hours ago with no review is stale
  (threshold 24) and needs review; after one review an hour ago it is neither; and once
  that review is 48 hours old (clock at 77 hours) it is stale again.
\<close>

theorem queries_exact:
  "getPRsNeedingReview S =
     filter (\<lambda>pr. reviewCount pr = Some 0 \<or> lastReviewedAt pr = None) (getTrackedPRs S) \<and>
   getStalePRs now h S =
     filter (\<lambda>pr. h * 3600000 < now - createdAt pr \<and>
                   \<not> (\<exists>t. lastReviewedAt pr = Some t \<and> now - t \<le> h * 3600000))
       (getTrackedPRs S) \<and>
   map number (getStalePRs (30 * hour) 24 example_opened) = [7] \<and>
   map number (getPRsNeedingReview example_opened) = [7] \<and>
   getStalePRs (30 * hour) 24 example_reviewed = [] \<and>
   getPRsNeedingReview example_reviewed = [] \<and>
   map number (getStalePRs (77 * hour) 24 example_reviewed) = [7]"
  using needsReview_filter stale_filter example_queries by blast

subsection \<open>Partial updates\<close>

text \<open>
  Claim C7. \<^verbatim>\<open>updatePRStatus\<close> on an untracked number returns the store as it was and
  emits the warning. On a tracked number it replaces that entry, in place, by a record
  whose \<open>reviewCount\<close> is the stored count (an absent count read as \<open>0\<close>) plus the
  supplied one when a count is supplied, and the stored count otherwise; every other
  field is the supplied value when one is supplied and the stored value otherwise.
\<close>

theorem updatePRStatus_merge:
  "(map_of S n = None \<longrightarrow>
      updatePRStatus n u S =
        (Console_warn (''PR #'' @ show_int n @ '' not found in tracker''), S)) \<and>
   (\<forall>pr. map_of S n = Some pr \<longrightarrow>
      (\<exists>pr'. snd (updatePRStatus n u S) = AList.update n pr' S \<and>
         reviewCount pr' =
           (case u_reviewCount u of
              None \<Rightarrow> reviewCount pr
            | Some d \<Rightarrow> Some ((case reviewCount pr of None \<Rightarrow> 0 | Some c \<Rightarrow> c) + d)) \<and>
         number pr' = (case u_number u of None \<Rightarrow> number pr | Some v \<Rightarrow> v) \<and>
         title pr' = (case u_title u of None \<Rightarrow> title pr | Some v \<Rightarrow> v) \<and>
         url pr' = (case u_url u of None \<Rightarrow> url pr | Some v \<Rightarrow> v) \<and>
         author pr' = (case u_author u of None \<Rightarrow> author pr | Some v \<Rightarrow> v) \<and>
         createdAt pr' = (case u_createdAt u of None \<Rightarrow> createdAt pr | Some v \<Rightarrow> v) \<and>
         owner pr' = (case u_owner u of None \<Rightarrow> owner pr | Some v \<Rightarrow> v) \<and>
         repo pr' = (case u_repo u of None \<Rightarrow> repo pr | Some v \<Rightarrow> v) \<and>
         isDraft pr' = (case u_isDraft u of None \<Rightarrow> isDraft pr | Some v \<Rightarrow> v) \<and>
         lastReviewedAt pr' =
           (case u_lastReviewedAt u of None \<Rightarrow> lastReviewedAt pr | Some v \<Rightarrow> v) \<and>
         lastUpdated pr' = (case u_lastUpdated u of None \<Rightarrow> lastUpdated pr | Some v \<Rightarrow> v) \<and>
         reviewers pr' = (case u_reviewers u of None \<Rightarrow> reviewers pr | Some v \<Rightarrow> v) \<and>
         age pr' = (case u_age u of None \<Rightarrow> age pr | Some v \<Rightarrow> v)))"
proof (intro conjI allI impI)
  assume "map_of S n = None"
  then show "updatePRStatus n u S =
      (Console_warn (''PR #'' @ show_int n @ '' not found in tracker''), S)"
    by (simp add: updatePRStatus_def)
next
  fix pr
  assume tracked: "map_of S n = Some pr"
  show "\<exists>pr'. snd (updatePRStatus n u S) = AList.update n pr' S \<and>
         reviewCount pr' =
           (case u_reviewCount u of
              None \<Rightarrow> reviewCount pr
            | Some d \<Rightarrow> Some ((case reviewCount pr of None \<Rightarrow> 0 | Some c \<Rightarrow> c) + d)) \<and>
         number pr' = (case u_number u of None \<Rightarrow> number pr | Some v \<Rightarrow> v) \<and>
         title pr' = (case u_title u of None \<Rightarrow> title pr | Some v \<Rightarrow> v) \<and>
         url pr' = (case u_url u of None \<Rightarrow> url pr | Some v \<Rightarrow> v) \<and>
         author pr' = (case u_author u of None \<Rightarrow> author pr | Some v \<Rightarrow> v) \<and>
         createdAt pr' = (case u_createdAt u of None \<Rightarrow> createdAt pr | Some v \<Rightarrow> v) \<and>
         owner pr' = (case u_owner u of None \<Rightarrow> owner pr | Some v \<Rightarrow> v) \<and>
         repo pr' = (case u_repo u of None \<Rightarrow> repo pr | Some v \<Rightarrow> v) \<and>
         isDraft pr' = (case u_isDraft u of None \<Rightarrow> isDraft pr | Some v \<Rightarrow> v) \<and>
         lastReviewedAt pr' =
           (case u_lastReviewedAt u of None \<Rightarrow> lastReviewedAt pr | Some v \<Rightarrow> v) \<and>
         lastUpdated pr' = (case u_lastUpdated u of None \<Rightarrow> lastUpdated pr | Some v \<Rightarrow> v) \<and>
         reviewers pr' = (case u_reviewers u of None \<Rightarrow> reviewers pr | Some v \<Rightarrow> v) \<and>
         age pr' = (case u_age u of None \<Rightarrow> age pr | Some v \<Rightarrow> v)"
    unfolding updatePRStatus_def spread_def or_zero_case tracked option.case snd_conv
    by (intro exI conjI, rule refl) simp_all
qed

theorem updatePRStatus_merge_witness:
  "updatePRStatus 8 (one_review (29 * hour)) example_opened =
     (Console_warn ''PR #8 not found in tracker'', example_opened) \<and>
   (\<exists>pr'. example_reviewed = AList.update 7 pr' example_opened \<and>
      reviewCount pr' = Some 1 \<and> lastReviewedAt pr' = Some (29 * hour) \<and>
      title pr' = ''Fix parser'' \<and> reviewers pr' = [])"
proof -
  have tracked: "map_of example_opened 7 = Some (snd (hd example_opened))"
    by (simp add: example_defs trackPR_def)
  have untracked: "map_of example_opened 8 = None"
    by (simp add: example_defs trackPR_def)
  from updatePRStatus_merge [of example_opened 8 "one_review (29 * hour)"] untracked
  have warn: "updatePRStatus 8 (one_review (29 * hour)) example_opened =
     (Console_warn ''PR #8 not found in tracker'', example_opened)"
    by (simp add: show_int_eval)
  from updatePRStatus_merge [of example_opened 7 "one_review (29 * hour)"] tracked
  obtain pr' where "snd (updatePRStatus 7 (one_review (29 * hour)) example_opened) =
        AList.update 7 pr' example_opened"
    and "reviewCount pr' = Some 1" and "lastReviewedAt pr' = Some (29 * hour)"
    and "title pr' = ''Fix parser''" and "reviewers pr' = []"
    by (auto simp: example_defs trackPR_def)
  with warn show ?thesis
    unfolding example_reviewed_def by blast
qed

subsection \<open>Review counts under partial updates\<close>

lemma updatePRStatus_count_mono:
  assumes "nonneg_delta u" and "map_of S k = Some pr"
  shows "\<exists>pr'. map_of (snd (updatePRStatus n u S)) k = Some pr' \<and>
           or_zero (reviewCount pr) \<le> or_zero (reviewCount pr')"
  using assms
  by (cases "n = k")
     (auto simp: updatePRStatus_def nonneg_delta_def update_conv' split: option.splits)

lemma run_updates_count_mono:
  assumes "list_all (\<lambda>c. nonneg_delta (snd c)) calls" and "map_of S k = Some pr"
  shows "\<exists>pr'. map_of (run_updates calls S) k = Some pr' \<and>
           or_zero (reviewCount pr) \<le> or_zero (reviewCount pr')"
  using assms
proof (induction calls arbitrary: S pr)
  case Nil
  then show ?case by (simp add: run_updates_def)
next
  case (Cons c calls)
  from Cons.prems obtain p1 where
    p1: "map_of (snd (updatePRStatus (fst c) (snd c) S)) k = Some p1"
        "or_zero (reviewCount pr) \<le> or_zero (reviewCount p1)"
    using updatePRStatus_count_mono [of "snd c" S k pr "fst c"] by auto
  from Cons.prems have "list_all (\<lambda>c. nonneg_delta (snd c)) calls" by simp
  from Cons.IH [OF this p1(1)] obtain p2 where
    "map_of (run_updates calls (snd (updatePRStatus (fst c) (snd c) S))) k = Some p2"
    "or_zero (reviewCount p1) \<le> or_zero (reviewCount p2)" by blast
  with p1(2) show ?case
    by (auto simp: run_updates_def)
qed

text \<open>
  Claim C8, as amended. Across any sequence of \<^verbatim>\<open>updatePRStatus\<close> calls in which every
  supplied count is non-negative, a tracked PR stays tracked and its \<open>reviewCount\<close>
  (an absent count read as \<open>0\<close>) never decreases: the count after any prefix of the
  calls is at least the initial one and at most the count after the whole sequence.
\<close>

theorem reviewCount_monotone:
  assumes "list_all (\<lambda>c. nonneg_delta (snd c)) (before @ after)"
    and "map_of S k = Some pr"
  shows "\<exists>p1 p2. map_of (run_updates before S) k = Some p1 \<and>
           map_of (run_updates (before @ after) S) k = Some p2 \<and>
           or_zero (reviewCount pr) \<le> or_zero (reviewCount p1) \<and>
           or_zero (reviewCount p1) \<le> or_zero (reviewCount p2)"
proof -
  from assms obtain p1 where
    p1: "map_of (run_updates before S) k = Some p1"
        "or_zero (reviewCount pr) \<le> or_zero (reviewCount p1)"
    using run_updates_count_mono [of before S k pr] by auto
  from assms(1) have "list_all (\<lambda>c. nonneg_delta (snd c)) after" by simp
  from run_updates_count_mono [OF this p1(1)] obtain p2 where
    "map_of (run_updates after (run_updates before S)) k = Some p2"
    "or_zero (reviewCount p1) \<le> or_zero (reviewCount p2)" by blast
  with p1 show ?thesis
    by (auto simp: run_updates_def)
qed

theorem reviewCount_monotone_witness:
  "list_all (\<lambda>c. nonneg_delta (snd c)) ([(7, delta 1)] @ [(7, delta 0), (7, delta 2)]) \<and>
   map (reviewCount \<circ> snd) example_opened = [Some 0] \<and>
   map (reviewCount \<circ> snd) (run_updates [(7, delta 1)] example_opened) = [Some 1] \<and>
   map (reviewCount \<circ> snd)
     (run_updates ([(7, delta 1)] @ [(7, delta 0), (7, delta 2)]) example_opened) = [Some 3] \<and>
   (\<exists>p1 p2. map_of (run_updates [(7, delta 1)] example_opened) 7 = Some p1 \<and>
      map_of (run_updates ([(7, delta 1)] @ [(7, delta 0), (7, delta 2)]) example_opened) 7 =
        Some p2 \<and>
      or_zero (reviewCount p1) \<le> or_zero (reviewCount p2))"
proof -
  have h1: "list_all (\<lambda>c. nonneg_delta (snd c)) ([(7, delta 1)] @ [(7, delta 0), (7, delta 2)])"
    by (simp add: nonneg_delta_def delta_def no_updates_def)
  have h2: "map_of example_opened 7 = Some (snd (hd example_opened))"
    by (simp add: example_defs trackPR_def)
  have vals: "map (reviewCount \<circ> snd) example_opened = [Some 0]"
    "map (reviewCount \<circ> snd) (run_updates [(7, delta 1)] example_opened) = [Some 1]"
    "map (reviewCount \<circ> snd)
       (run_updates ([(7, delta 1)] @ [(7, delta 0), (7, delta 2)]) example_opened) = [Some 3]"
    by (simp_all add: run_updates_def updatePRStatus_def delta_def example_defs trackPR_def
          spread_def)
  from reviewCount_monotone [OF h1 h2] h1 vals show ?thesis by blast
qed

text \<open>
  A supplied count of \<open>-1\<close> on the reviewed PR takes the stored count from \<open>1\<close> to \<open>0\<close>.
\<close>

theorem negative_delta_decreases:
  "map (reviewCount \<circ> snd) example_reviewed = [Some 1] \<and>
   map (reviewCount \<circ> snd) (snd (updatePRStatus 7 (delta (- 1)) example_reviewed)) = [Some 0]"
  by (simp add: updatePRStatus_def delta_def example_defs trackPR_def spread_def)


subsection \<open>Webhook events and the reviewers field\<close>

lemma trackPR_reviewers:
  assumes "map_of (trackPR now d S) k = Some pr'"
  shows "reviewers pr' = (case map_of S k of None \<Rightarrow> [] | Some pr \<Rightarrow> reviewers pr)"
proof (cases "k = number d")
  case True
  with assms show ?thesis
    by (auto simp: trackPR_def Let_def update_conv')
next
  case False
  with assms show ?thesis
    by (simp add: trackPR_def Let_def update_conv')
qed

lemma removePR_reviewers:
  assumes "map_of (removePR n S) k = Some pr'"
  shows "reviewers pr' = (case map_of S k of None \<Rightarrow> [] | Some pr \<Rightarrow> reviewers pr)"
  using assms
  by (cases "k = n") (simp_all add: removePR_def delete_conv')

lemma updatePRStatus_reviewers:
  assumes "u_reviewers u = None" and "map_of (snd (updatePRStatus n u S)) k = Some pr'"
  shows "reviewers pr' = (case map_of S k of None \<Rightarrow> [] | Some pr \<Rightarrow> reviewers pr)"
proof (cases "map_of S n")
  case None
  with assms show ?thesis by (simp add: updatePRStatus_def)
next
  case (Some pr)
  show ?thesis
  proof (cases "k = n")
    case True
    with assms Some show ?thesis
      by (auto simp: updatePRStatus_def update_conv' spread_def)
  next
    case False
    with assms Some show ?thesis
      by (simp add: updatePRStatus_def update_conv')
  qed
qed

lemma handlePullRequestEvent_cases:
  "handlePullRequestEvent now payload S = S \<or>
   (\<exists>d. handlePullRequestEvent now payload S = trackPR now d S) \<or>
   (\<exists>n. handlePullRequestEvent now payload S = removePR n S) \<or>
   (\<exists>n. handlePullRequestEvent now payload S =
      snd (updatePRStatus n (no_updates\<lparr>u_lastUpdated := Some (Some now)\<rparr>) S))"
  unfolding handlePullRequestEvent_def Let_def
  by (cases "pull_request payload") auto

lemma handlePullRequestReviewEvent_cases:
  "handlePullRequestReviewEvent payload S = S \<or>
   (\<exists>n t. handlePullRequestReviewEvent payload S = snd (updatePRStatus n (one_review t) S))"
  unfolding handlePullRequestReviewEvent_def one_review_def
  by (cases "pull_request payload"; cases "review payload") auto

lemma handlePullRequestReviewCommentEvent_cases:
  "handlePullRequestReviewCommentEvent now payload S = S \<or>
   (\<exists>n. handlePullRequestReviewCommentEvent now payload S =
      snd (updatePRStatus n (no_updates\<lparr>u_lastUpdated := Some (Some now)\<rparr>) S))"
  unfolding handlePullRequestReviewCommentEvent_def
  by (cases "pull_request payload") auto

lemma same_store_reviewers:
  assumes "map_of S k = Some pr'"
  shows "reviewers pr' = (case map_of S k of None \<Rightarrow> [] | Some pr \<Rightarrow> reviewers pr)"
  using assms by simp

lemma touch_reviewers: "u_reviewers (no_updates\<lparr>u_lastUpdated := Some (Some now)\<rparr>) = None"
  by (simp add: no_updates_def)

lemma one_review_reviewers: "u_reviewers (one_review t) = None"
  by (simp add: one_review_def no_updates_def)

lemma handlePullRequestEvent_reviewers:
  assumes "map_of (handlePullRequestEvent now payload S) k = Some pr'"
  shows "reviewers pr' = (case map_of S k of None \<Rightarrow> [] | Some pr \<Rightarrow> reviewers pr)"
  using handlePullRequestEvent_cases [of now payload S] assms
  by (metis same_store_reviewers trackPR_reviewers removePR_reviewers
        updatePRStatus_reviewers [OF touch_reviewers])

lemma handlePullRequestReviewEvent_reviewers:
  assumes "map_of (handlePullRequestReviewEvent payload S) k = Some pr'"
  shows "reviewers pr' = (case map_of S k of None \<Rightarrow> [] | Some pr \<Rightarrow> reviewers pr)"
  using handlePullRequestReviewEvent_cases [of payload S] assms
  by (metis same_store_reviewers updatePRStatus_reviewers [OF one_review_reviewers])

lemma handlePullRequestReviewCommentEvent_reviewers:
  assumes "map_of (handlePullRequestReviewCommentEvent now payload S) k = Some pr'"
  shows "reviewers pr' = (case map_of S k of None \<Rightarrow> [] | Some pr \<Rightarrow> reviewers pr)"
  using handlePullRequestReviewCommentEvent_cases [of now payload S] assms
  by (metis same_store_reviewers updatePRStatus_reviewers [OF touch_reviewers])

lemma handleWebhook_cases:
  "snd (handleWebhook isValid event now payload S) = S \<or>
   snd (handleWebhook isValid event now payload S) = handlePullRequestEvent now payload S \<or>
   snd (handleWebhook isValid event now payload S) = handlePullRequestReviewEvent payload S \<or>
   snd (handleWebhook isValid event now payload S) =
     handlePullRequestReviewCommentEvent now payload S"
  by (simp add: handleWebhook_def)

lemma handleWebhook_reviewers:
  assumes "map_of (snd (handleWebhook isValid event now payload S)) k = Some pr'"
  shows "reviewers pr' = (case map_of S k of None \<Rightarrow> [] | Some pr \<Rightarrow> reviewers pr)"
  using handleWebhook_cases [of isValid event now payload S] assms
  by (metis same_store_reviewers handlePullRequestEvent_reviewers
        handlePullRequestReviewEvent_reviewers handlePullRequestReviewCommentEvent_reviewers)

lemma review_event_tracked:
  assumes "pull_request payload = Some p" and "review payload = Some r"
    and "action payload = Some ''submitted''" and "map_of S (pr_number p) = Some pr"
  shows "handlePullRequestReviewEvent payload S =
     AList.update (pr_number p)
       (pr\<lparr>lastReviewedAt := Some (review_submitted_at r),
           reviewCount := Some (or_zero (reviewCount pr) + 1)\<rparr>) S"
  using assms
  by (cases pr)
     (simp add: handlePullRequestReviewEvent_def updatePRStatus_def no_updates_def spread_def)

text \<open>
  Claim C10. A submitted-review event on a tracked PR rewrites that entry in place with
  \<open>lastReviewedAt\<close> set to the review's submission time and \<open>reviewCount\<close> raised by
  one; every other field, \<open>reviewers\<close> among them, is the stored one. And no webhook
  event of any kind adds a reviewer: whatever entry the store holds afterwards carries the
  \<open>reviewers\<close> the same key had before, or none if the key was not tracked.
\<close>

theorem review_event_frame:
  "(\<forall>p r pr. pull_request payload = Some p \<and> review payload = Some r \<and>
       action payload = Some ''submitted'' \<and> map_of S (pr_number p) = Some pr \<longrightarrow>
       snd (handleWebhook True ''pull_request_review'' now payload S) =
         AList.update (pr_number p)
           (pr\<lparr>lastReviewedAt := Some (review_submitted_at r),
               reviewCount := Some (or_zero (reviewCount pr) + 1)\<rparr>) S) \<and>
   (\<forall>k pr'. map_of (snd (handleWebhook isValid event now payload S)) k = Some pr' \<longrightarrow>
       reviewers pr' = (case map_of S k of None \<Rightarrow> [] | Some pr \<Rightarrow> reviewers pr))"
proof (intro conjI allI impI)
  fix p r pr
  assume "pull_request payload = Some p \<and> review payload = Some r \<and>
       action payload = Some ''submitted'' \<and> map_of S (pr_number p) = Some pr"
  then show "snd (handleWebhook True ''pull_request_review'' now payload S) =
         AList.update (pr_number p)
           (pr\<lparr>lastReviewedAt := Some (review_submitted_at r),
               reviewCount := Some (or_zero (reviewCount pr) + 1)\<rparr>) S"
    by (simp add: handleWebhook_def review_event_tracked)
next
  fix k pr'
  assume "map_of (snd (handleWebhook isValid event now payload S)) k = Some pr'"
  then show "reviewers pr' = (case map_of S k of None \<Rightarrow> [] | Some pr \<Rightarrow> reviewers pr)"
    by (rule handleWebhook_reviewers)
qed

theorem review_event_frame_witness:
  "snd (handleWebhook True ''pull_request_review'' (30 * hour) review_payload example_opened) =
     example_reviewed \<and>
   map (reviewers \<circ> snd) example_opened = [[]] \<and>
   map (reviewers \<circ> snd) example_reviewed = [[]] \<and>
   map (reviewCount \<circ> snd) example_reviewed = [Some 1] \<and>
   map (lastReviewedAt \<circ> snd) example_reviewed = [Some (29 * hour)]"
proof -
  let ?p = "\<lparr>pr_number = 7, pr_title = ''Fix parser'',
        pr_html_url = ''https://example.test/pull/7'', pr_user_login = ''alice'',
        pr_created_at = 0, pr_state = ''open'', pr_draft = False\<rparr>"
  let ?r = "\<lparr>review_state = ''approved'', review_user_login = ''bob'',
        review_submitted_at = 29 * hour\<rparr>"
  let ?pr = "snd (hd example_opened)"
  have hyp: "pull_request review_payload = Some ?p \<and> review review_payload = Some ?r \<and>
       action review_payload = Some ''submitted'' \<and> map_of example_opened (pr_number ?p) = Some ?pr"
    by (simp add: review_payload_def example_defs trackPR_def)
  from review_event_frame [of review_payload example_opened "30 * hour"] hyp
  have "snd (handleWebhook True ''pull_request_review'' (30 * hour) review_payload example_opened) =
         AList.update (pr_number ?p)
           (?pr\<lparr>lastReviewedAt := Some (review_submitted_at ?r),
               reviewCount := Some (or_zero (reviewCount ?pr) + 1)\<rparr>) example_opened"
    by blast
  also have "\<dots> = example_reviewed"
    by (simp add: example_defs trackPR_def updatePRStatus_def spread_def)
  finally have first: "snd (handleWebhook True ''pull_request_review'' (30 * hour) review_payload
      example_opened) = example_reviewed" .
  have "map (reviewers \<circ> snd) example_opened = [[]]"
    "map (reviewers \<circ> snd) example_reviewed = [[]]"
    "map (reviewCount \<circ> snd) example_reviewed = [Some 1]"
    "map (lastReviewedAt \<circ> snd) example_reviewed = [Some (29 * hour)]"
    by (simp_all add: example_defs trackPR_def updatePRStatus_def spread_def)
  with first show ?thesis by simp
qed

subsection \<open>Drafts\<close>

lemma set_update_subset: "set (AList.update k v al) \<subseteq> insert (k, v) (set al)"
  by (induction al) auto

lemma set_delete_subset: "set (AList.delete k al) \<subseteq> set al"
  by (auto simp: AList.delete_eq)

lemma no_drafts_iff: "no_drafts S \<longleftrightarrow> (\<forall>e \<in> set S. \<not> isDraft (snd e))"
  by (simp add: no_drafts_def list_all_iff)

lemma no_drafts_update:
  assumes "no_drafts S" and "\<not> isDraft v"
  shows "no_drafts (AList.update k v S)"
  using assms set_update_subset [of k v S]
  by (fastforce simp: no_drafts_iff)

lemma no_drafts_subset:
  assumes "no_drafts S" and "set T \<subseteq> set S"
  shows "no_drafts T"
  using assms by (auto simp: no_drafts_iff)

lemma no_drafts_lookup:
  assumes "no_drafts S" and "map_of S k = Some pr"
  shows "\<not> isDraft pr"
  using assms map_of_SomeD [of S k pr] by (fastforce simp: no_drafts_iff)

lemma no_drafts_trackPR:
  assumes "no_drafts S" and "\<not> isDraft prData"
  shows "no_drafts (trackPR now prData S)"
  unfolding trackPR_def Let_def
  by (rule no_drafts_update [OF assms(1)]) (simp add: assms(2))

lemma no_drafts_updatePRStatus:
  assumes "no_drafts S" and "u_isDraft u \<noteq> Some True"
  shows "no_drafts (snd (updatePRStatus n u S))"
proof (cases "map_of S n")
  case None
  with assms show ?thesis by (simp add: updatePRStatus_def)
next
  case (Some pr)
  with assms have "\<not> isDraft pr" by (simp add: no_drafts_lookup)
  with assms(2) have "\<not> spread (u_isDraft u) (isDraft pr)"
    by (cases "u_isDraft u") (simp_all add: spread_def)
  with Some show ?thesis
    unfolding updatePRStatus_def
    by (simp add: no_drafts_update [OF assms(1)])
qed

lemma no_drafts_removePR: "no_drafts S \<Longrightarrow> no_drafts (removePR n S)"
  unfolding removePR_def by (rule no_drafts_subset [OF _ set_delete_subset])

lemma set_fold_delete_subset:
  "set (fold (\<lambda>k acc. if k \<notin> A then AList.delete k acc else acc) ks S) \<subseteq> set S"
proof (induction ks arbitrary: S)
  case Nil
  then show ?case by simp
next
  case (Cons k ks)
  let ?S' = "if k \<notin> A then AList.delete k S else S"
  have "set (fold (\<lambda>k acc. if k \<notin> A then AList.delete k acc else acc) ks ?S') \<subseteq> set ?S'"
    by (rule Cons)
  also have "\<dots> \<subseteq> set S"
    using set_delete_subset [of k S] by simp
  finally show ?case by simp
qed

lemma no_drafts_remove_closed: "no_drafts S \<Longrightarrow> no_drafts (remove_closed A S)"
  unfolding remove_closed_def by (rule no_drafts_subset [OF _ set_fold_delete_subset])

lemma no_drafts_sync_one:
  assumes "no_drafts S" and "\<not> gh_draft pr"
  shows "no_drafts (sync_one now ownr rep pr reviews S)"
proof -
  let ?prData = "\<lparr>number = gh_number pr, title = gh_title pr, url = gh_html_url pr,
            author = login_or_unknown (gh_user pr), createdAt = gh_created_at pr,
            owner = ownr, repo = rep, isDraft = gh_draft pr,
            lastReviewedAt = map_option rv_submitted_at
              (if length reviews > 0 then Some (reviews ! (length reviews - 1)) else None),
            lastUpdated = Some (gh_updated_at pr),
            reviewCount = Some (int (length reviews))\<rparr>"
  have tracked: "no_drafts (trackPR now ?prData S)"
    by (rule no_drafts_trackPR [OF assms(1)]) (simp add: assms(2))
  show ?thesis
  proof (cases "map_of (trackPR now ?prData S) (gh_number pr)")
    case None
    with tracked show ?thesis by (simp add: sync_one_def Let_def)
  next
    case (Some pr_tracked)
    with tracked have "\<not> isDraft pr_tracked" by (simp add: no_drafts_lookup)
    then have "\<not> isDraft (pr_tracked\<lparr>reviewers :=
        new_Set (map (\<lambda>r. login_or_unknown (rv_user r)) reviews)\<rparr>)" by simp
    from no_drafts_update [OF tracked this] Some show ?thesis
      by (simp add: sync_one_def Let_def)
  qed
qed

lemma no_drafts_sync_loop:
  "no_drafts S \<Longrightarrow> no_drafts (snd (sync_loop clock ownr rep lr prs S))"
proof (induction prs arbitrary: clock S)
  case Nil
  then show ?case by simp
next
  case (Cons pr prs)
  show ?case
  proof (cases "gh_draft pr")
    case True
    with Cons show ?thesis by simp
  next
    case False
    show ?thesis
    proof (cases "lr (gh_number pr)")
      case (Inl e)
      with False Cons.prems show ?thesis by simp
    next
      case (Inr reviews)
      from Cons.prems False have "no_drafts (sync_one (clock 0) ownr rep pr reviews S)"
        by (rule no_drafts_sync_one)
      from Cons.IH [OF this] False Inr show ?thesis by simp
    qed
  qed
qed

lemma no_drafts_syncWithGitHub:
  "no_drafts S \<Longrightarrow> no_drafts (snd (syncWithGitHub clock ownr rep octo S))"
  unfolding syncWithGitHub_def
  by (cases "pulls_list_open octo")
     (simp_all add: no_drafts_sync_loop no_drafts_remove_closed)

lemma no_drafts_apply_op:
  assumes "no_drafts S" and "passes_no_draft op"
  shows "no_drafts (apply_op op S)"
  using assms
  by (cases op)
     (simp_all add: no_drafts_trackPR no_drafts_updatePRStatus no_drafts_removePR
        no_drafts_syncWithGitHub)

lemma no_drafts_fold_ops:
  assumes "no_drafts S" and "list_all passes_no_draft ops"
  shows "no_drafts (fold apply_op ops S)"
  using assms
proof (induction ops arbitrary: S)
  case Nil
  then show ?case by simp
next
  case (Cons op ops)
  from Cons.prems have "no_drafts (apply_op op S)"
    by (simp add: no_drafts_apply_op)
  with Cons.IH [of "apply_op op S"] Cons.prems(2) show ?case by simp
qed

lemma opened_draft_dropped:
  assumes "pull_request payload = Some p" and "action payload = Some ''opened''" and "pr_draft p"
  shows "handlePullRequestEvent now payload S = S"
  using assms by (simp add: handlePullRequestEvent_def)

text \<open>
  Claim C4, as amended. Starting from a store without drafts, every sequence of
  \<^verbatim>\<open>trackPR\<close>, \<^verbatim>\<open>updatePRStatus\<close>, \<^verbatim>\<open>removePR\<close> and \<^verbatim>\<open>syncWithGitHub\<close> calls in
  which no \<^verbatim>\<open>trackPR\<close> is handed a draft and no \<^verbatim>\<open>updatePRStatus\<close> supplies
  \<open>isDraft = true\<close> leaves a store without drafts; reconciliation needs no such
  condition, it skips the drafts upstream lists. At ingestion the filter sits in the
  webhook handler: an \<open>opened\<close> event for a draft leaves the store as it was.
\<close>

theorem no_drafts_run_ops:
  "(no_drafts S \<and> list_all passes_no_draft ops \<longrightarrow> no_drafts (run_ops ops S)) \<and>
   (\<forall>p. pull_request payload = Some p \<and> action payload = Some ''opened'' \<and> pr_draft p \<longrightarrow>
      handlePullRequestEvent now payload S = S)"
  by (simp add: run_ops_def no_drafts_fold_ops opened_draft_dropped)

theorem no_drafts_run_ops_witness:
  "no_drafts [] \<and> list_all passes_no_draft example_ops \<and>
   no_drafts (run_ops example_ops []) \<and> map fst (run_ops example_ops []) = [7] \<and>
   map_option pr_draft (pull_request draft_opened_payload) = Some True \<and>
   action draft_opened_payload = Some ''opened'' \<and>
   handlePullRequestEvent (30 * hour) draft_opened_payload (run_ops example_ops []) =
     run_ops example_ops []"
proof -
  let ?p = "\<lparr>pr_number = 8, pr_title = ''Draft work'',
        pr_html_url = ''https://example.test/pull/8'', pr_user_login = ''alice'',
        pr_created_at = 0, pr_state = ''open'', pr_draft = True\<rparr>"
  have h1: "no_drafts []"
    by (simp add: no_drafts_def)
  have h2: "list_all passes_no_draft example_ops"
    by (simp add: example_ops_def example_defs)
  have h3: "pull_request draft_opened_payload = Some ?p \<and>
      action draft_opened_payload = Some ''opened'' \<and> pr_draft ?p"
    by (simp add: draft_opened_payload_def)
  have keys: "map fst (run_ops example_ops []) = [7]"
    by (simp add: run_ops_def example_ops_def example_defs octokit_defs sync_eval
          updatePRStatus_def removePR_def spread_def)
  from no_drafts_run_ops [of "[]" example_ops draft_opened_payload] h1 h2
  have a: "no_drafts (run_ops example_ops [])"
    by blast
  from no_drafts_run_ops [of "run_ops example_ops []" "[]" draft_opened_payload "30 * hour"] h3
  have b: "handlePullRequestEvent (30 * hour) draft_opened_payload (run_ops example_ops []) =
     run_ops example_ops []"
    by blast
  from h3 have "map_option pr_draft (pull_request draft_opened_payload) = Some True"
    by simp
  with h1 h2 h3 keys a b show ?thesis by simp
qed

text \<open>
  \<^verbatim>\<open>trackPR\<close> stores a draft it is handed, and \<^verbatim>\<open>updatePRStatus\<close> turns a tracked
  PR into a draft when the update says so.
\<close>

theorem draft_is_stored:
  "map (isDraft \<circ> snd) (run_ops [Track (30 * hour) (example_pr\<lparr>isDraft := True\<rparr>)] []) = [True] \<and>
   map (isDraft \<circ> snd) example_opened = [False] \<and>
   map (isDraft \<circ> snd)
     (run_ops [UpdateStatus 7 (no_updates\<lparr>u_isDraft := Some True\<rparr>)] example_opened) = [True]"
  by (simp add: run_ops_def example_defs trackPR_def updatePRStatus_def spread_def)

subsection \<open>Reconciliation: keys and entries\<close>

lemma last_review: "reviews \<noteq> [] \<Longrightarrow> reviews ! (length reviews - Suc 0) = last reviews"
  by (simp add: last_conv_nth)

lemma sync_one_eq:
  "sync_one now ownr rep pr reviews S =
     AList.update (gh_number pr)
       (synced_entry now ownr rep pr reviews (map_of S (gh_number pr))) S"
  by (simp add: sync_one_def trackPR_def Let_def update_conv' synced_entry_def last_review)

lemma map_of_sync_one:
  "map_of (sync_one now ownr rep pr reviews S) k =
     (if gh_number pr = k then Some (synced_entry now ownr rep pr reviews (map_of S k))
      else map_of S k)"
  by (simp add: sync_one_eq update_conv')

lemma keys_sync_one:
  "map fst (sync_one now ownr rep pr reviews S) =
     (if gh_number pr \<in> set (map fst S) then map fst S else map fst S @ [gh_number pr])"
  by (simp add: sync_one_eq update_keys)

lemma map_of_sync_loop:
  "map_of (snd (sync_loop clock ownr rep lr prs S)) k =
     entry_loop clock ownr rep lr prs k (map_of S k)"
proof (induction prs arbitrary: clock S)
  case Nil
  then show ?case by simp
next
  case (Cons pr prs)
  then show ?case
    by (cases "lr (gh_number pr)") (simp_all add: map_of_sync_one)
qed

lemma fst_sync_loop:
  "fst (sync_loop clock ownr rep lr prs S) = fst (sync_loop clock ownr rep lr prs T)"
proof (induction prs arbitrary: clock S T)
  case Nil
  then show ?case by simp
next
  case (Cons pr prs)
  then show ?case
    by (cases "lr (gh_number pr)") simp_all
qed

lemma keys_sync_one_set:
  "set (map fst (sync_one now ownr rep pr reviews S)) = insert (gh_number pr) (set (map fst S))"
  by (auto simp: keys_sync_one)

lemma keys_sync_loop_set:
  "set (map fst (snd (sync_loop clock ownr rep lr prs S))) =
     set (map fst S) \<union> set (processed lr prs)"
proof (induction prs arbitrary: clock S)
  case Nil
  then show ?case by simp
next
  case (Cons pr prs)
  show ?case
  proof (cases "gh_draft pr")
    case True
    with Cons [of "\<lambda>i. clock (Suc i)" S] show ?thesis by simp
  next
    case False
    show ?thesis
    proof (cases "lr (gh_number pr)")
      case (Inl e)
      with False show ?thesis by simp
    next
      case (Inr reviews)
      from Cons [of "\<lambda>i. clock (Suc i)" "sync_one (clock 0) ownr rep pr reviews S"]
      have "set (map fst (snd (sync_loop (\<lambda>i. clock (Suc i)) ownr rep lr prs
               (sync_one (clock 0) ownr rep pr reviews S)))) =
            insert (gh_number pr) (set (map fst S)) \<union> set (processed lr prs)"
        by (simp only: keys_sync_one_set)
      with False Inr show ?thesis by simp
    qed
  qed
qed

lemma keys_sync_loop_same:
  "set (processed lr prs) \<subseteq> set (map fst S) \<Longrightarrow>
     map fst (snd (sync_loop clock ownr rep lr prs S)) = map fst S"
proof (induction prs arbitrary: clock S)
  case Nil
  then show ?case by simp
next
  case (Cons pr prs)
  show ?case
  proof (cases "gh_draft pr")
    case True
    with Cons.prems Cons.IH [of S "\<lambda>i. clock (Suc i)"] show ?thesis by simp
  next
    case False
    show ?thesis
    proof (cases "lr (gh_number pr)")
      case (Inl e)
      with False show ?thesis by simp
    next
      case (Inr reviews)
      let ?S' = "sync_one (clock 0) ownr rep pr reviews S"
      from Cons.prems False Inr have here: "gh_number pr \<in> set (map fst S)"
        and rest: "set (processed lr prs) \<subseteq> set (map fst S)"
        by simp_all
      from here have same: "map fst ?S' = map fst S"
        by (simp add: keys_sync_one)
      with rest have "set (processed lr prs) \<subseteq> set (map fst ?S')"
        by simp
      from Cons.IH [OF this, of "\<lambda>i. clock (Suc i)"] same False Inr show ?thesis
        by simp
    qed
  qed
qed

lemma distinct_sync_loop:
  "distinct (map fst S) \<Longrightarrow> distinct (map fst (snd (sync_loop clock ownr rep lr prs S)))"
proof (induction prs arbitrary: clock S)
  case Nil
  then show ?case by simp
next
  case (Cons pr prs)
  show ?case
  proof (cases "gh_draft pr")
    case True
    with Cons show ?thesis by simp
  next
    case False
    show ?thesis
    proof (cases "lr (gh_number pr)")
      case (Inl e)
      with False Cons.prems show ?thesis by simp
    next
      case (Inr reviews)
      from Cons.prems have "distinct (map fst (sync_one (clock 0) ownr rep pr reviews S))"
        by (simp add: keys_sync_one)
      from Cons.IH [OF this] False Inr show ?thesis by simp
    qed
  qed
qed

lemma processed_subset: "set (processed lr prs) \<subseteq> set (map gh_number prs)"
proof (induction prs)
  case Nil
  then show ?case by simp
next
  case (Cons pr prs)
  then show ?case
    by (cases "lr (gh_number pr)") auto
qed

lemma count_of_synced [simp]:
  "count_of (Some (synced_entry now ownr rep pr reviews v)) = count_of v"
  by (simp add: count_of_def synced_entry_def)

lemma synced_entry_cong:
  "count_of v = count_of w \<Longrightarrow>
     synced_entry now ownr rep pr reviews v = synced_entry now ownr rep pr reviews w"
  by (simp add: count_of_def synced_entry_def)

lemma count_of_entry_loop:
  "count_of (entry_loop clock ownr rep lr prs k v) = count_of v"
proof (induction prs arbitrary: clock v)
  case Nil
  then show ?case by simp
next
  case (Cons pr prs)
  then show ?case
    by (cases "lr (gh_number pr)") simp_all
qed

lemma entry_loop_cong:
  "count_of v = count_of w \<Longrightarrow>
     entry_loop clock ownr rep lr prs k v = entry_loop clock ownr rep lr prs k w \<or>
     (entry_loop clock ownr rep lr prs k v = v \<and> entry_loop clock ownr rep lr prs k w = w)"
proof (induction prs arbitrary: clock v w)
  case Nil
  then show ?case by simp
next
  case (Cons pr prs)
  show ?case
  proof (cases "gh_draft pr")
    case True
    with Cons show ?thesis by simp
  next
    case False
    show ?thesis
    proof (cases "lr (gh_number pr)")
      case (Inl e)
      with False show ?thesis by simp
    next
      case (Inr reviews)
      show ?thesis
      proof (cases "gh_number pr = k")
        case True
        with False Inr synced_entry_cong [OF Cons.prems] show ?thesis by simp
      next
        case neq: False
        with False Inr Cons.IH [OF Cons.prems] show ?thesis by simp
      qed
    qed
  qed
qed

lemma entry_loop_idem:
  "entry_loop clock ownr rep lr prs k (entry_loop clock ownr rep lr prs k v) =
     entry_loop clock ownr rep lr prs k v"
proof -
  have "count_of (entry_loop clock ownr rep lr prs k v) = count_of v"
    by (rule count_of_entry_loop)
  from entry_loop_cong [OF this, where clock = clock and ownr = ownr and rep = rep
      and lr = lr and prs = prs and k = k]
  show ?thesis by auto
qed

lemma alist_eqI:
  assumes "distinct (map fst xs)" and "map fst xs = map fst ys" and "map_of xs = map_of ys"
  shows "xs = ys"
proof -
  have len: "length (map snd xs) = length (map fst xs)" "length (map snd ys) = length (map fst xs)"
    using map_eq_imp_length_eq [OF assms(2)] by simp_all
  have "zip (map fst xs) (map snd ys) = ys"
    unfolding assms(2) by (rule zip_map_fst_snd)
  moreover have "zip (map fst xs) (map snd xs) = xs"
    by (rule zip_map_fst_snd)
  ultimately have "map_of (zip (map fst xs) (map snd xs)) = map_of (zip (map fst xs) (map snd ys))"
    using assms(3) by simp
  from map_of_zip_inject [OF len assms(1) this]
  have "map snd xs = map snd ys" .
  with assms(2) show ?thesis
    by (metis zip_map_fst_snd)
qed

lemma sync_loop_idem:
  assumes "distinct (map fst S)"
  shows "sync_loop clock ownr rep lr prs (snd (sync_loop clock ownr rep lr prs S)) =
     sync_loop clock ownr rep lr prs S"
proof -
  let ?S1 = "snd (sync_loop clock ownr rep lr prs S)"
  let ?S2 = "snd (sync_loop clock ownr rep lr prs ?S1)"
  have d1: "distinct (map fst ?S1)"
    using assms by (rule distinct_sync_loop)
  have "set (processed lr prs) \<subseteq> set (map fst ?S1)"
    by (simp only: keys_sync_loop_set) blast
  then have keys: "map fst ?S2 = map fst ?S1"
    by (rule keys_sync_loop_same)
  have "map_of ?S2 = map_of ?S1"
    by (rule ext) (simp add: map_of_sync_loop entry_loop_idem)
  with d1 keys have "?S2 = ?S1"
    by (intro alist_eqI [symmetric]) simp_all
  moreover have "fst (sync_loop clock ownr rep lr prs ?S1) = fst (sync_loop clock ownr rep lr prs S)"
    by (rule fst_sync_loop)
  ultimately show ?thesis
    by (simp add: prod_eq_iff)
qed

lemma fold_delete_filter:
  "fold (\<lambda>k acc. if k \<notin> A then AList.delete k acc else acc) ks S =
     filter (\<lambda>e. fst e \<in> A \<or> fst e \<notin> set ks) S"
proof (induction ks arbitrary: S)
  case Nil
  then show ?case by simp
next
  case (Cons k ks)
  show ?case
  proof (cases "k \<in> A")
    case True
    then have "filter (\<lambda>e. fst e \<in> A \<or> fst e \<notin> set ks) S =
        filter (\<lambda>e. fst e \<in> A \<or> fst e \<notin> set (k # ks)) S"
      by (intro filter_cong) auto
    with True Cons [of S] show ?thesis by simp
  next
    case False
    then have "filter (\<lambda>e. fst e \<in> A \<or> fst e \<notin> set ks) (AList.delete k S) =
        filter (\<lambda>e. fst e \<in> A \<or> fst e \<notin> set (k # ks)) S"
      unfolding AList.delete_eq filter_filter
      by (intro filter_cong) auto
    with False Cons [of "AList.delete k S"] show ?thesis by simp
  qed
qed

lemma remove_closed_filter: "remove_closed A S = filter (\<lambda>e. fst e \<in> A) S"
  unfolding remove_closed_def fold_delete_filter
  by (intro filter_cong) auto

lemma remove_closed_id:
  "set (map fst S) \<subseteq> A \<Longrightarrow> remove_closed A S = S"
  unfolding remove_closed_filter by (auto simp: filter_id_conv)

lemma keys_remove_closed: "set (map fst (remove_closed A S)) \<subseteq> A"
  unfolding remove_closed_filter by auto

lemma distinct_remove_closed:
  "distinct (map fst S) \<Longrightarrow> distinct (map fst (remove_closed A S))"
  unfolding remove_closed_filter by (rule distinct_map_filter)

lemma distinct_trackPR: "distinct (map fst S) \<Longrightarrow> distinct (map fst (trackPR now d S))"
  by (simp add: trackPR_def Let_def distinct_update)

lemma distinct_updatePRStatus:
  "distinct (map fst S) \<Longrightarrow> distinct (map fst (snd (updatePRStatus n u S)))"
  by (cases "map_of S n") (simp_all add: updatePRStatus_def distinct_update)

lemma distinct_removePR: "distinct (map fst S) \<Longrightarrow> distinct (map fst (removePR n S))"
  by (simp add: removePR_def distinct_delete)

lemma distinct_syncWithGitHub:
  "distinct (map fst S) \<Longrightarrow> distinct (map fst (snd (syncWithGitHub clock ownr rep octo S)))"
  by (cases "pulls_list_open octo")
     (simp_all add: syncWithGitHub_def distinct_sync_loop distinct_remove_closed)

text \<open>
  Claim C3. On a store whose keys are distinct, as the keys of a \<^verbatim>\<open>Map\<close> are, a second
  \<^verbatim>\<open>syncWithGitHub\<close> against the same answers of the source of truth and the same
  clock readings ends as the first did and leaves the store the first left.
\<close>

theorem sync_idempotent:
  assumes "distinct (map fst S)"
  shows "syncWithGitHub clock ownr rep octo (snd (syncWithGitHub clock ownr rep octo S)) =
     syncWithGitHub clock ownr rep octo S"
proof (cases "pulls_list_open octo")
  case (Inl e)
  then show ?thesis by (simp add: syncWithGitHub_def)
next
  case (Inr prs)
  let ?A = "set (map gh_number prs)"
  let ?S0 = "remove_closed ?A S"
  let ?S1 = "snd (sync_loop clock ownr rep (pulls_listReviews octo) prs ?S0)"
  have "set (map fst ?S1) \<subseteq> ?A"
    unfolding keys_sync_loop_set
    using keys_remove_closed [of ?A S] processed_subset [of "pulls_listReviews octo" prs]
    by blast
  then have "remove_closed ?A ?S1 = ?S1"
    by (rule remove_closed_id)
  moreover have "distinct (map fst ?S0)"
    using assms by (rule distinct_remove_closed)
  ultimately show ?thesis
    using Inr by (simp add: syncWithGitHub_def sync_loop_idem)
qed

theorem sync_idempotent_witness:
  "distinct (map fst [(9, synced_pr 9 1)]) \<and>
   syncWithGitHub (\<lambda>i. 2 * hour) ''acme'' ''widgets'' healthy_octokit [(9, synced_pr 9 1)] =
     (None, [(1, synced_pr 1 0)]) \<and>
   syncWithGitHub (\<lambda>i. 2 * hour) ''acme'' ''widgets'' healthy_octokit [(1, synced_pr 1 0)] =
     (None, [(1, synced_pr 1 0)])"
proof -
  have h: "distinct (map fst [(9, synced_pr 9 1)])"
    by simp
  have first:
    "syncWithGitHub (\<lambda>i. 2 * hour) ''acme'' ''widgets'' healthy_octokit [(9, synced_pr 9 1)] =
       (None, [(1, synced_pr 1 0)])"
    by (simp add: sync_eval octokit_defs)
  from sync_idempotent [OF h, of "\<lambda>i. 2 * hour" "''acme''" "''widgets''" healthy_octokit]
  have "syncWithGitHub (\<lambda>i. 2 * hour) ''acme'' ''widgets'' healthy_octokit [(1, synced_pr 1 0)] =
       (None, [(1, synced_pr 1 0)])"
    unfolding first snd_conv .
  with h first show ?thesis by simp
qed

subsection \<open>Reconciliation: failures and review counts\<close>

text \<open>
  Claim C1 (the code departs from it). Five PRs are open and the reviews of #3 cannot be
  fetched. \<^verbatim>\<open>syncWithGitHub\<close> rethrows that failure; #1 and #2 were written before
  it, #4 and #5 are never reached.
\<close>

theorem sync_aborts_on_one_failure:
  "syncWithGitHub (\<lambda>i. 2 * hour) ''acme'' ''widgets'' failing_octokit [] =
     (Some (Request_failed ''502''), [(1, synced_pr 1 0), (2, synced_pr 2 0)])"
  by (simp add: sync_eval octokit_defs)

text \<open>
  Claim C2 (the code departs from it). One open PR has three reviews by two reviewers.
  After a successful sync its entry has both reviewers and the time of the last review,
  but a \<open>reviewCount\<close> of \<open>0\<close> on a fresh store, and the stored \<open>5\<close> where the entry
  existed with that count: \<^verbatim>\<open>trackPR\<close> discards the \<^verbatim>\<open>reviewCount\<close> of the record
  it is given.
\<close>

theorem sync_keeps_reviewCount:
  "syncWithGitHub (\<lambda>i. 2 * hour) ''acme'' ''widgets'' healthy_octokit [] =
     (None, [(1, synced_pr 1 0)]) \<and>
   syncWithGitHub (\<lambda>i. 2 * hour) ''acme'' ''widgets'' healthy_octokit [(1, synced_pr 1 5)] =
     (None, [(1, synced_pr 1 5)]) \<and>
   pulls_listReviews healthy_octokit 1 = Inr three_reviews \<and> length three_reviews = 3"
  by (simp add: sync_eval octokit_defs)

text \<open>
  Claim C5 (the code departs from it). When the list of open PRs cannot be fetched the
  store is returned as it was. When the reviews of #3 cannot be fetched the sync throws
  as well, but by then the tracked #9 has been deleted and #1 and #2 have been written.
\<close>

theorem sync_throws_after_writes:
  "syncWithGitHub (\<lambda>i. 2 * hour) ''acme'' ''widgets'' down_octokit [(9, synced_pr 9 1)] =
     (Some (Request_failed ''503''), [(9, synced_pr 9 1)]) \<and>
   syncWithGitHub (\<lambda>i. 2 * hour) ''acme'' ''widgets'' failing_octokit [(9, synced_pr 9 1)] =
     (Some (Request_failed ''502''), [(1, synced_pr 1 0), (2, synced_pr 2 0)])"
  by (simp add: sync_eval octokit_defs)

subsection \<open>Average latencies\<close>

lemma formatTimeDifference_tiers:
  "formatTimeDifference ms =
     (if ms < 3600000 then show_int \<lfloor>ms / 60000\<rfloor> @ ''m''
      else if ms < 86400000 then show_int \<lfloor>ms / 3600000\<rfloor> @ ''h''
      else if \<lfloor>ms / 86400000\<rfloor> = 1 then ''1 day''
      else show_int \<lfloor>ms / 86400000\<rfloor> @ '' days'')"
  by (simp add: formatTimeDifference_def Let_def)

lemma fold_review_time_step:
  "fold (review_time_step lr) prs (t, n) =
     (t + sum_list (review_latencies lr prs), n + length (review_latencies lr prs))"
proof (induction prs arbitrary: t n)
  case Nil
  then show ?case by (simp add: review_latencies_def)
next
  case (Cons pr prs)
  show ?case
  proof (cases "lr (gh_number pr)")
    case (Inl e)
    with Cons show ?thesis
      by (simp add: review_time_step_def review_latencies_def map_filter_simps)
  next
    case (Inr reviews)
    with Cons show ?thesis
      by (cases reviews)
         (simp_all add: review_time_step_def review_latencies_def map_filter_simps)
  qed
qed

lemma fold_merge_time_step:
  "fold merge_time_step prs (t, n) =
     (t + sum_list (merge_latencies prs), n + length (merge_latencies prs))"
proof (induction prs arbitrary: t n)
  case Nil
  then show ?case by (simp add: merge_latencies_def)
next
  case (Cons pr prs)
  then show ?case
    by (cases "gh_merged_at pr")
       (simp_all add: merge_time_step_def merge_latencies_def map_filter_simps)
qed

lemma average_string_mean:
  "average_string (sum_list ls, length ls) = mean_string ls"
  by (simp add: average_string_def mean_string_def)

lemma averageReviewTime_mean:
  assumes "pulls_list_closed octo = Inr closedPRs"
  shows "averageReviewTime octo =
     Inr (mean_string (review_latencies (pulls_listReviews octo) (take 30 (mergedPRs closedPRs))))"
  using assms
  by (simp add: averageReviewTime_def fold_review_time_step average_string_mean)

lemma averageMergeTime_mean:
  assumes "pulls_list_closed octo = Inr closedPRs"
  shows "averageMergeTime octo = Inr (mean_string (merge_latencies (take 30 (mergedPRs closedPRs))))"
  using assms
  by (simp add: averageMergeTime_def fold_merge_time_step average_string_mean)

lemma sample_review_latencies:
  "review_latencies (pulls_listReviews sample_octokit)
     (take 30 (mergedPRs [merged_pull 11 0 (48 * hour), merged_pull 12 hour (49 * hour),
             merged_pull 13 (2 * hour) (50 * hour)])) = [hour, 3 * hour, 5 * hour]"
  by (simp add: sample_defs review_latencies_def mergedPRs_def map_filter_simps)

lemma sample_3h: "averageReviewTime sample_octokit = Inr ''3h''"
  by (simp add: averageReviewTime_def sample_defs mergedPRs_def review_time_step_def
     average_string_def formatTimeDifference_def show_int_eval)

lemma sample_2days: "averageMergeTime sample_octokit = Inr ''2 days''"
  by (simp add: averageMergeTime_def sample_defs mergedPRs_def merge_time_step_def
     average_string_def formatTimeDifference_def show_int_eval)

text \<open>
  Claim C9, as amended. The two average strings of the metrics are produced by
  \<^verbatim>\<open>formatTimeDifference\<close> applied to the mean, in milliseconds, of the sampled
  latencies (or are \<open>N/A\<close> when nothing was sampled). Its tiers are its own: whole
  minutes with the suffix \<open>m\<close> below one hour, whole hours with the suffix \<open>h\<close> from 1
  up to 24 hours, and from 24 hours on \<open>1 day\<close> or the whole number of days followed by
  \<open>days\<close>. First-review latencies of 1, 3 and 5 hours over three merged PRs give
  \<open>3h\<close>.
\<close>

theorem average_time_strings:
  "formatTimeDifference ms =
     (if ms < 3600000 then show_int \<lfloor>ms / 60000\<rfloor> @ ''m''
      else if ms < 86400000 then show_int \<lfloor>ms / 3600000\<rfloor> @ ''h''
      else if \<lfloor>ms / 86400000\<rfloor> = 1 then ''1 day''
      else show_int \<lfloor>ms / 86400000\<rfloor> @ '' days'') \<and>
   (\<forall>closedPRs. pulls_list_closed octo = Inr closedPRs \<longrightarrow>
      averageReviewTime octo =
        Inr (mean_string (review_latencies (pulls_listReviews octo) (take 30 (mergedPRs closedPRs)))) \<and>
      averageMergeTime octo = Inr (mean_string (merge_latencies (take 30 (mergedPRs closedPRs))))) \<and>
   averageReviewTime sample_octokit = Inr ''3h''"
  using formatTimeDifference_tiers averageReviewTime_mean averageMergeTime_mean sample_3h
  by blast

theorem average_time_strings_witness:
  "review_latencies (pulls_listReviews sample_octokit)
     (take 30 (mergedPRs [merged_pull 11 0 (48 * hour), merged_pull 12 hour (49 * hour),
             merged_pull 13 (2 * hour) (50 * hour)])) = [hour, 3 * hour, 5 * hour] \<and>
   mean_string [hour, 3 * hour, 5 * hour] = ''3h'' \<and>
   averageReviewTime sample_octokit = Inr ''3h'' \<and>
   averageMergeTime sample_octokit = Inr ''2 days''"
proof -
  have listed: "pulls_list_closed sample_octokit =
      Inr [merged_pull 11 0 (48 * hour), merged_pull 12 hour (49 * hour),
           merged_pull 13 (2 * hour) (50 * hour)]"
    by (simp add: sample_octokit_def)
  have mean: "mean_string [hour, 3 * hour, 5 * hour] = ''3h''"
    by (simp add: mean_string_def formatTimeDifference_def hour_def show_int_eval)
  have merges: "mean_string (merge_latencies
      (take 30 (mergedPRs [merged_pull 11 0 (48 * hour), merged_pull 12 hour (49 * hour),
           merged_pull 13 (2 * hour) (50 * hour)]))) = ''2 days''"
    by (simp add: mean_string_def merge_latencies_def mergedPRs_def map_filter_simps
          merged_pull_def formatTimeDifference_def hour_def show_int_eval)
  from average_time_strings [of _ sample_octokit] listed
  have "averageReviewTime sample_octokit =
        Inr (mean_string (review_latencies (pulls_listReviews sample_octokit)
          (take 30 (mergedPRs [merged_pull 11 0 (48 * hour), merged_pull 12 hour (49 * hour),
           merged_pull 13 (2 * hour) (50 * hour)]))))"
    and "averageMergeTime sample_octokit =
        Inr (mean_string (merge_latencies
          (take 30 (mergedPRs [merged_pull 11 0 (48 * hour), merged_pull 12 hour (49 * hour),
           merged_pull 13 (2 * hour) (50 * hour)]))))"
    by blast+
  with sample_review_latencies mean merges show ?thesis by simp
qed

text \<open>
  A first review after 30 minutes averages to \<open>30m\<close> and a merge after 48 hours to
  \<open>2 days\<close>, where the tiers of \<^verbatim>\<open>formatPRAge\<close> would give \<open>just opened\<close> and
  \<open>2d\<close>.
\<close>

theorem formatTimeDifference_not_formatAge:
  "averageReviewTime quick_octokit = Inr ''30m'' \<and>
   formatAge_tiering 1800000 = ''just opened'' \<and>
   averageMergeTime quick_octokit = Inr ''2 days'' \<and>
   formatAge_tiering (of_int (48 * hour)) = ''2d''"
  by (simp add: averageReviewTime_def averageMergeTime_def sample_defs mergedPRs_def
        review_time_step_def merge_time_step_def average_string_def formatTimeDifference_def
        formatAge_tiering_def show_int_eval)

end
